theory Spec2Isabelle
  imports Main
begin

section \<open>String and array primitives of the host language\<close>

text \<open>
  A document is a \<^typ>\<open>string\<close>: the sequence of its code units. The model covers the
  code units below 256; among those the white space removed by \<open>trim\<close> is tab, line
  feed, vertical tab, form feed, carriage return, space and the no-break space.
  Line numbers are JavaScript numbers holding integers, modelled as \<^typ>\<open>int\<close>.
\<close>

text \<open>\<open>s.split('\n')\<close>: never empty, the empty string gives one empty line.\<close>

fun split_nl :: "string \<Rightarrow> string list" where
  "split_nl [] = [[]]"
| "split_nl (c # cs) =
     (if c = CHR 0x0A then [] # split_nl cs
      else (case split_nl cs of [] \<Rightarrow> [[c]] | l # ls \<Rightarrow> (c # l) # ls))"

text \<open>\<open>a.join('\n')\<close>.\<close>

fun join_nl :: "string list \<Rightarrow> string" where
  "join_nl [] = []"
| "join_nl [l] = l"
| "join_nl (l # m # ls) = l @ CHR 0x0A # join_nl (m # ls)"

definition is_whitespace :: "char \<Rightarrow> bool" where
  "is_whitespace c =
     (c = CHR 0x09 \<or> c = CHR 0x0A \<or> c = CHR 0x0B \<or> c = CHR 0x0C \<or> c = CHR 0x0D
      \<or> c = CHR 0x20 \<or> c = CHR 0xA0)"

text \<open>\<open>s.trim()\<close>: white space removed at both ends.\<close>

definition trim :: "string \<Rightarrow> string" where
  "trim s = rev (dropWhile is_whitespace (rev (dropWhile is_whitespace s)))"

text \<open>\<open>s.startsWith(p)\<close>.\<close>

definition starts_with :: "string \<Rightarrow> string \<Rightarrow> bool" where
  "starts_with s p = (take (length p) s = p)"

text \<open>\<open>s.includes(p)\<close>: \<open>p\<close> occurs in \<open>s\<close> at some position.\<close>

fun includes_str :: "string \<Rightarrow> string \<Rightarrow> bool" where
  "includes_str [] p = (p = [])"
| "includes_str (c # cs) p = (starts_with (c # cs) p \<or> includes_str cs p)"

text \<open>\<open>(line.match(/c/g) || []).length\<close> for a one-character pattern.\<close>

definition match_count :: "char \<Rightarrow> string \<Rightarrow> int" where
  "match_count c line = int (count_list line c)"

text \<open>
  \<open>xs.slice(start, fin)\<close> on integers: a negative index counts from the end, both are
  clamped to the array, and an empty range gives the empty array.
\<close>

definition js_slice :: "'a list \<Rightarrow> int \<Rightarrow> int \<Rightarrow> 'a list" where
  "js_slice xs start fin =
     (let len = int (length xs);
          k = (if start < 0 then max (len + start) 0 else min start len);
          final = (if fin < 0 then max (len + fin) 0 else min fin len)
      in take (nat (final - k)) (drop (nat k) xs))"

text \<open>Decimal rendering of the numbers interpolated into an error message.\<close>

fun show_nat :: "nat \<Rightarrow> string" where
  "show_nat n =
     (if n < 10 then [''0123456789'' ! n]
      else show_nat (n div 10) @ [''0123456789'' ! (n mod 10)])"

declare show_nat.simps [simp del]

definition show_int :: "int \<Rightarrow> string" where
  "show_int i = (if i < 0 then CHR ''-'' # show_nat (nat (- i)) else show_nat (nat i))"

section \<open>Spans and blocks\<close>

record span =
  startLine :: int
  endLine :: int
  content :: string


record scan_state =
  inBlock :: bool
  braceDepth :: int

section \<open>extractThemeBlocks\<close>






section \<open>replaceLines\<close>

datatype error = Error string

definition replaceLines :: "string \<Rightarrow> int \<Rightarrow> int \<Rightarrow> string \<Rightarrow> error + string" where
  "replaceLines originalContent startL endL newContent =
     (let lines = split_nl originalContent in
      if startL < 1 \<or> endL > int (length lines) \<or> startL > endL then
        Inl (Error (''Invalid line range: '' @ show_int startL @ ''-'' @ show_int endL
                    @ '' (total lines: '' @ show_nat (length lines) @ '')''))
      else
        (let newLines = split_nl newContent;
             before = js_slice lines 0 (startL - 1);
             after = js_slice lines endL (int (length lines))
         in Inr (join_nl (before @ newLines @ after))))"

section \<open>extractDesignTokenSection\<close>

record section_blocks =
  theme :: int
  root :: int
  darkTheme :: int
  darkThemeEnd :: int

record design_token_section = span +
  blocks :: section_blocks

record dts_state = scan_state +
  themeStartLine :: int
  rootStartLine :: int
  darkThemeStartLine :: int
  darkThemeEndLine :: int
  currentBlockType :: "string option"

definition dts_init :: dts_state where
  "dts_init =
     \<lparr>inBlock = False, braceDepth = 0, themeStartLine = - 1, rootStartLine = - 1,
      darkThemeStartLine = - 1, darkThemeEndLine = - 1, currentBlockType = None\<rparr>"

text \<open>
  One iteration of the loop on line \<open>lineNumber\<close>. The second component is \<open>True\<close>
  when the iteration ends in \<open>break\<close>.
\<close>

definition dts_step :: "int \<Rightarrow> string \<Rightarrow> dts_state \<Rightarrow> dts_state \<times> bool" where
  "dts_step lineNumber line st =
     (let trimmedLine = trim line in
      if themeStartLine st = - 1 \<and> starts_with trimmedLine ''@theme''
         \<and> \<not> includes_str trimmedLine ''inline'' then
        (st\<lparr>themeStartLine := lineNumber, inBlock := True,
            currentBlockType := Some ''theme'',
            braceDepth := 0 + match_count CHR ''{'' line - match_count CHR ''}'' line\<rparr>,
         False)
      else if rootStartLine st = - 1 \<and> starts_with trimmedLine '':root'' then
        (st\<lparr>rootStartLine := lineNumber, inBlock := True,
            currentBlockType := Some ''root'',
            braceDepth := 0 + match_count CHR ''{'' line - match_count CHR ''}'' line\<rparr>,
         False)
      else if starts_with trimmedLine ''.dark-theme'' then
        (st\<lparr>darkThemeStartLine := lineNumber, inBlock := True,
            currentBlockType := Some ''dark-theme'',
            braceDepth := 0 + match_count CHR ''{'' line - match_count CHR ''}'' line\<rparr>,
         False)
      else if inBlock st then
        (let depth = braceDepth st + match_count CHR ''{'' line - match_count CHR ''}'' line
         in if depth = 0 then
              (if currentBlockType st = Some ''dark-theme'' then
                 (st\<lparr>braceDepth := depth, darkThemeEndLine := lineNumber\<rparr>, True)
               else (st\<lparr>braceDepth := depth, inBlock := False, currentBlockType := None\<rparr>,
                     False))
            else (st\<lparr>braceDepth := depth\<rparr>, False))
      else (st, False))"

text \<open>The \<open>for\<close> loop: \<open>i\<close> is the index of the first of the remaining lines.\<close>

fun dts_loop :: "nat \<Rightarrow> string list \<Rightarrow> dts_state \<Rightarrow> dts_state" where
  "dts_loop i [] st = st"
| "dts_loop i (line # rest) st =
     (let r = dts_step (int i + 1) line st in
      if snd r then fst r else dts_loop (Suc i) rest (fst r))"

definition extractDesignTokenSection :: "string \<Rightarrow> design_token_section option" where
  "extractDesignTokenSection cssContent =
     (let lines = split_nl cssContent;
          st = dts_loop 0 lines dts_init in
      if themeStartLine st = - 1 \<or> darkThemeEndLine st = - 1 then None
      else
        (let sectionLines = js_slice lines (themeStartLine st - 1) (darkThemeEndLine st)
         in Some \<lparr>startLine = themeStartLine st,
                  endLine = darkThemeEndLine st,
                  content = join_nl sectionLines,
                  blocks = \<lparr>theme = themeStartLine st, root = rootStartLine st,
                            darkTheme = darkThemeStartLine st,
                            darkThemeEnd = darkThemeEndLine st\<rparr>\<rparr>))"

section \<open>Anchor tests and brace counts of a line\<close>

text \<open>
  The tests that the loop of \<open>extractDesignTokenSection\<close> applies to a line, and the
  amount by which a line changes the brace depth, named for use in the statements.
\<close>

definition theme_anchor :: "string \<Rightarrow> bool" where
  "theme_anchor line =
     (starts_with (trim line) ''@theme'' \<and> \<not> includes_str (trim line) ''inline'')"

definition root_anchor :: "string \<Rightarrow> bool" where
  "root_anchor line = starts_with (trim line) '':root''"

definition dark_anchor :: "string \<Rightarrow> bool" where
  "dark_anchor line = starts_with (trim line) ''.dark-theme''"

definition brace_delta :: "string \<Rightarrow> int" where
  "brace_delta line = match_count CHR ''{'' line - match_count CHR ''}'' line"

text \<open>The state in which the loop of \<open>extractDesignTokenSection\<close> ends.\<close>

definition dts_final :: "string \<Rightarrow> dts_state" where
  "dts_final cssContent = dts_loop 0 (split_nl cssContent) dts_init"


section \<open>Closing lines, read off the text of the document\<close>

text \<open>
  The notions \<open>net_braces\<close>, \<open>depth_between\<close>, \<open>anchor_at\<close>, \<open>dark_closes\<close> and
  \<open>last_anchor\<close> describe a document by its lines alone, with no reference to the state
  of a loop. Indices count from 0: index \<open>m\<close> is line \<open>m + 1\<close>.
\<close>



text \<open>
  Line \<open>m\<close> is an anchor: the first \<open>@theme\<close> line without \<open>inline\<close>, the first
  \<open>:root\<close> line, or any \<open>.dark-theme\<close> line.
\<close>

definition anchor_at :: "string list \<Rightarrow> nat \<Rightarrow> bool" where
  "anchor_at L m =
     ((theme_anchor (L ! m) \<and> \<not> list_ex theme_anchor (take m L))
      \<or> (root_anchor (L ! m) \<and> \<not> list_ex root_anchor (take m L))
      \<or> dark_anchor (L ! m))"


text \<open>The last anchor among the first \<open>j\<close> lines.\<close>

primrec last_anchor :: "string list \<Rightarrow> nat \<Rightarrow> nat option" where
  "last_anchor L 0 = None"
| "last_anchor L (Suc j) = (if anchor_at L j then Some j else last_anchor L j)"


section \<open>The end-to-end document\<close>

definition e2e_lines :: "string list" where
  "e2e_lines =
     [''@theme {'',
      ''  --color-red: #ff0000;'',
      ''}'',
      ''.unrelated { color: blue; }'',
      '':root {'',
      ''  --bg: var(--color-red);'',
      ''}'',
      ''.dark-theme {'',
      ''  --bg: #000;'',
      ''}'',
      ''.more-unrelated { color: green; }'']"

definition e2e_document :: string where
  "e2e_document = join_nl e2e_lines"

section \<open>Splitting and joining lines\<close>

lemma split_nl_not_Nil [simp]: "split_nl s \<noteq> []"
  by (induction s) (auto split: list.splits)

lemma length_split_nl_pos [simp]: "0 < length (split_nl s)"
  by (cases "split_nl s") simp_all

lemma split_nl_Cons_other:
  "c \<noteq> CHR 0x0A \<Longrightarrow> split_nl (c # cs) = (c # hd (split_nl cs)) # tl (split_nl cs)"
  by (cases "split_nl cs") simp_all

lemma split_nl_append: "split_nl (a @ CHR 0x0A # b) = split_nl a @ split_nl b"
proof (induction a)
  case Nil
  show ?case by simp
next
  case (Cons c a)
  show ?case
  proof (cases "c = CHR 0x0A")
    case True
    with Cons show ?thesis by simp
  next
    case False
    obtain l ls where s: "split_nl a = l # ls"
      by (cases "split_nl a") simp_all
    with False Cons show ?thesis by simp
  qed
qed

lemma split_nl_no_newline: "CHR 0x0A \<notin> set s \<Longrightarrow> split_nl s = [s]"
  by (induction s) auto

lemma split_nl_lines_no_newline: "l \<in> set (split_nl s) \<Longrightarrow> CHR 0x0A \<notin> set l"
proof (induction s arbitrary: l)
  case Nil
  then show ?case by simp
next
  case (Cons c s)
  obtain m ms where s: "split_nl s = m # ms"
    by (cases "split_nl s") simp_all
  show ?case
  proof (cases "c = CHR 0x0A")
    case True
    with Cons show ?thesis by auto
  next
    case False
    with Cons.prems s have "l = c # m \<or> l \<in> set ms" by simp
    moreover have "CHR 0x0A \<notin> set m" using Cons.IH [of m] s by simp
    moreover have "l \<in> set ms \<Longrightarrow> CHR 0x0A \<notin> set l" using Cons.IH [of l] s by simp
    ultimately show ?thesis using False by auto
  qed
qed

lemma join_nl_Cons: "ls \<noteq> [] \<Longrightarrow> join_nl (l # ls) = l @ CHR 0x0A # join_nl ls"
  by (cases ls) simp_all

lemma join_nl_split_nl: "join_nl (split_nl s) = s"
proof (induction s)
  case Nil
  show ?case by simp
next
  case (Cons c s)
  obtain m ms where s: "split_nl s = m # ms"
    by (cases "split_nl s") simp_all
  show ?case
  proof (cases "c = CHR 0x0A")
    case True
    with Cons show ?thesis by (simp add: join_nl_Cons)
  next
    case False
    with Cons s show ?thesis by (cases ms) simp_all
  qed
qed

lemma split_nl_join_nl:
  "ls \<noteq> [] \<Longrightarrow> \<forall>l\<in>set ls. CHR 0x0A \<notin> set l \<Longrightarrow> split_nl (join_nl ls) = ls"
proof (induction ls rule: join_nl.induct)
  case 1
  then show ?case by simp
next
  case (2 l)
  then show ?case by (simp add: split_nl_no_newline)
next
  case (3 l m ls)
  then show ?case by (simp add: split_nl_append split_nl_no_newline)
qed

lemma join_nl_append:
  "xs \<noteq> [] \<Longrightarrow> ys \<noteq> [] \<Longrightarrow> join_nl (xs @ ys) = join_nl xs @ CHR 0x0A # join_nl ys"
proof (induction xs rule: join_nl.induct)
  case 1
  then show ?case by simp
next
  case (2 l)
  then show ?case by (simp add: join_nl_Cons)
next
  case (3 l m ls)
  then show ?case by simp
qed

lemma js_slice_range:
  "0 \<le> a \<Longrightarrow> a \<le> b \<Longrightarrow> b \<le> int (length xs) \<Longrightarrow>
   js_slice xs a b = drop (nat a) (take (nat b) xs)"
  by (simp add: js_slice_def Let_def drop_take nat_diff_distrib)

section \<open>The line-range splicer\<close>

lemma replaceLines_invalid:
  "s < 1 \<or> e > int (length (split_nl D)) \<or> s > e \<Longrightarrow>
   replaceLines D s e X = Inl (Error (''Invalid line range: '' @ show_int s @ ''-'' @ show_int e
                    @ '' (total lines: '' @ show_nat (length (split_nl D)) @ '')''))"
  by (simp add: replaceLines_def Let_def)

lemma replaceLines_valid:
  assumes "1 \<le> s" "s \<le> e" "e \<le> int (length (split_nl D))"
  shows "replaceLines D s e X =
         Inr (join_nl (take (nat (s - 1)) (split_nl D) @ split_nl X @ drop (nat e) (split_nl D)))"
proof -
  have b: "js_slice (split_nl D) 0 (s - 1) = take (nat (s - 1)) (split_nl D)"
    using assms by (simp add: js_slice_range)
  have a: "js_slice (split_nl D) e (int (length (split_nl D))) = drop (nat e) (split_nl D)"
    using assms by (simp add: js_slice_range)
  from assms have "\<not> (s < 1 \<or> e > int (length (split_nl D)) \<or> s > e)" by simp
  then show ?thesis
    by (simp add: replaceLines_def Let_def a b)
qed

lemma replaceLines_lines:
  assumes "1 \<le> s" "s \<le> e" "e \<le> int (length (split_nl D))"
    and "replaceLines D s e X = Inr out"
  shows "split_nl out = take (nat (s - 1)) (split_nl D) @ split_nl X @ drop (nat e) (split_nl D)"
proof -
  let ?ls = "take (nat (s - 1)) (split_nl D) @ split_nl X @ drop (nat e) (split_nl D)"
  have out: "out = join_nl ?ls"
    using replaceLines_valid [OF assms(1-3), of X] assms(4) by simp
  have "\<forall>l\<in>set ?ls. CHR 0x0A \<notin> set l"
    by (auto dest: split_nl_lines_no_newline in_set_takeD in_set_dropD)
  moreover have "?ls \<noteq> []" by simp
  ultimately show ?thesis unfolding out by (rule split_nl_join_nl [rotated])
qed

section \<open>The loop of the section locator\<close>



lemma dts_step_cases:
  "dts_step n line st =
     (if themeStartLine st = - 1 \<and> theme_anchor line then
        (st\<lparr>themeStartLine := n, inBlock := True, currentBlockType := Some ''theme'',
            braceDepth := brace_delta line\<rparr>, False)
      else if rootStartLine st = - 1 \<and> root_anchor line then
        (st\<lparr>rootStartLine := n, inBlock := True, currentBlockType := Some ''root'',
            braceDepth := brace_delta line\<rparr>, False)
      else if dark_anchor line then
        (st\<lparr>darkThemeStartLine := n, inBlock := True, currentBlockType := Some ''dark-theme'',
            braceDepth := brace_delta line\<rparr>, False)
      else if inBlock st then
        (if braceDepth st + brace_delta line = 0 then
           (if currentBlockType st = Some ''dark-theme'' then
              (st\<lparr>braceDepth := 0, darkThemeEndLine := n\<rparr>, True)
            else (st\<lparr>braceDepth := 0, inBlock := False, currentBlockType := None\<rparr>, False))
         else (st\<lparr>braceDepth := braceDepth st + brace_delta line\<rparr>, False))
      else (st, False))"
  by (simp add: dts_step_def Let_def theme_anchor_def root_anchor_def dark_anchor_def
      brace_delta_def algebra_simps)

lemma dts_step_break_iff:
  "snd (dts_step n line st) \<longleftrightarrow>
     \<not> (themeStartLine st = - 1 \<and> theme_anchor line)
     \<and> \<not> (rootStartLine st = - 1 \<and> root_anchor line)
     \<and> \<not> dark_anchor line \<and> inBlock st \<and> braceDepth st + brace_delta line = 0
     \<and> currentBlockType st = Some ''dark-theme''"
  by (simp add: dts_step_cases)

lemma dts_step_break_end:
  "snd (dts_step n line st) \<Longrightarrow> darkThemeEndLine (fst (dts_step n line st)) = n"
  by (auto simp: dts_step_cases split: if_splits)

lemma dts_step_continue_end:
  "\<not> snd (dts_step n line st) \<Longrightarrow>
   darkThemeEndLine (fst (dts_step n line st)) = darkThemeEndLine st"
  by (simp add: dts_step_cases split: if_splits)

lemma dts_step_theme:
  "themeStartLine (fst (dts_step n line st)) =
     (if themeStartLine st = - 1 \<and> theme_anchor line then n else themeStartLine st)"
  by (simp add: dts_step_cases)


lemma dts_loop_Cons_break:
  "snd (dts_step (int i + 1) l st) \<Longrightarrow> dts_loop i (l # ls) st = fst (dts_step (int i + 1) l st)"
  by (simp add: Let_def)

lemma dts_loop_Cons_continue:
  "\<not> snd (dts_step (int i + 1) l st) \<Longrightarrow>
   dts_loop i (l # ls) st = dts_loop (Suc i) ls (fst (dts_step (int i + 1) l st))"
  by (simp add: Let_def)

lemma dts_loop_end_range:
  "darkThemeEndLine st = - 1 \<Longrightarrow>
   darkThemeEndLine (dts_loop i ls st) = - 1
   \<or> (int i < darkThemeEndLine (dts_loop i ls st)
      \<and> darkThemeEndLine (dts_loop i ls st) \<le> int i + int (length ls))"
proof (induction ls arbitrary: i st)
  case Nil
  then show ?case by simp
next
  case (Cons l ls)
  show ?case
  proof (cases "snd (dts_step (int i + 1) l st)")
    case True
    then show ?thesis
      by (simp add: dts_loop_Cons_break dts_step_break_end)
  next
    case False
    then have "darkThemeEndLine (fst (dts_step (int i + 1) l st)) = - 1"
      using Cons.prems by (simp add: dts_step_continue_end)
    from Cons.IH [OF this, of "Suc i"] False show ?thesis
      by (auto simp: dts_loop_Cons_continue)
  qed
qed

lemma dts_loop_no_break_Cons:
  assumes "darkThemeEndLine (dts_loop i (l # ls) st) = - 1"
  shows "\<not> snd (dts_step (int i + 1) l st)"
proof
  assume b: "snd (dts_step (int i + 1) l st)"
  then have "darkThemeEndLine (dts_loop i (l # ls) st) = int i + 1"
    by (simp add: dts_loop_Cons_break dts_step_break_end)
  with assms show False by simp
qed

lemma dts_loop_append:
  "darkThemeEndLine (dts_loop i xs st) = - 1 \<Longrightarrow>
   dts_loop i (xs @ ys) st = dts_loop (i + length xs) ys (dts_loop i xs st)"
proof (induction xs arbitrary: i st)
  case Nil
  then show ?case by simp
next
  case (Cons l xs)
  note nb = dts_loop_no_break_Cons [OF Cons.prems]
  then have "darkThemeEndLine (dts_loop (Suc i) xs (fst (dts_step (int i + 1) l st))) = - 1"
    using Cons.prems by (simp add: dts_loop_Cons_continue)
  from Cons.IH [OF this] nb show ?case
    by (simp add: dts_loop_Cons_continue)
qed



section \<open>The result of the section locator\<close>

lemma dts_loop_theme_before_end:
  assumes "darkThemeEndLine st = - 1"
    and "themeStartLine st = - 1 \<or> (1 \<le> themeStartLine st \<and> themeStartLine st \<le> int i)"
  shows "(themeStartLine (dts_loop i ls st) = - 1 \<or> 1 \<le> themeStartLine (dts_loop i ls st))
         \<and> (darkThemeEndLine (dts_loop i ls st) \<noteq> - 1 \<longrightarrow>
              themeStartLine (dts_loop i ls st) < darkThemeEndLine (dts_loop i ls st))"
  using assms
proof (induction ls arbitrary: i st)
  case Nil
  then show ?case by auto
next
  case (Cons l ls)
  let ?st = "fst (dts_step (int i + 1) l st)"
  show ?case
  proof (cases "snd (dts_step (int i + 1) l st)")
    case True
    have "themeStartLine ?st = themeStartLine st"
      using True by (simp add: dts_step_theme dts_step_break_iff)
    moreover have "darkThemeEndLine ?st = int i + 1"
      using True by (simp add: dts_step_break_end)
    ultimately show ?thesis
      using True Cons.prems by (auto simp: dts_loop_Cons_break)
  next
    case False
    have e: "darkThemeEndLine ?st = - 1"
      using False Cons.prems by (simp add: dts_step_continue_end)
    have t: "themeStartLine ?st = - 1
             \<or> (1 \<le> themeStartLine ?st \<and> themeStartLine ?st \<le> int (Suc i))"
      using Cons.prems by (auto simp: dts_step_theme)
    from Cons.IH [OF e t] False show ?thesis
      by (simp add: dts_loop_Cons_continue)
  qed
qed

lemma extract_Some:
  assumes "extractDesignTokenSection css = Some r"
  shows "themeStartLine (dts_final css) \<noteq> - 1 \<and> darkThemeEndLine (dts_final css) \<noteq> - 1
         \<and> startLine r = themeStartLine (dts_final css)
         \<and> endLine r = darkThemeEndLine (dts_final css)
         \<and> content r = join_nl (js_slice (split_nl css) (themeStartLine (dts_final css) - 1)
                                   (darkThemeEndLine (dts_final css)))
         \<and> blocks r = \<lparr>theme = themeStartLine (dts_final css),
                        root = rootStartLine (dts_final css),
                        darkTheme = darkThemeStartLine (dts_final css),
                        darkThemeEnd = darkThemeEndLine (dts_final css)\<rparr>"
  using assms
  by (auto simp: extractDesignTokenSection_def dts_final_def Let_def split: if_splits)


lemma extract_bounds:
  assumes "extractDesignTokenSection css = Some r"
  shows "1 \<le> startLine r \<and> startLine r < endLine r \<and> endLine r \<le> int (length (split_nl css))"
proof -
  note s = extract_Some [OF assms]
  have i: "darkThemeEndLine dts_init = - 1" "themeStartLine dts_init = - 1"
    by (simp_all add: dts_init_def)
  have "int 0 < darkThemeEndLine (dts_final css)
        \<and> darkThemeEndLine (dts_final css) \<le> int 0 + int (length (split_nl css))"
    using dts_loop_end_range [OF i(1), of 0 "split_nl css"] s by (simp add: dts_final_def)
  moreover have "1 \<le> themeStartLine (dts_final css)
                 \<and> themeStartLine (dts_final css) < darkThemeEndLine (dts_final css)"
    using dts_loop_theme_before_end [OF i(1), of 0 "split_nl css"] i(2) s
    by (simp add: dts_final_def)
  ultimately show ?thesis using s by simp
qed


lemma dts_final_break_conv:
  assumes "k < length (split_nl css)"
    and "darkThemeEndLine (dts_loop 0 (take k (split_nl css)) dts_init) = - 1"
    and "snd (dts_step (int k + 1) (split_nl css ! k) (dts_loop 0 (take k (split_nl css)) dts_init))"
  shows "darkThemeEndLine (dts_final css) = int k + 1"
proof -
  let ?L = "split_nl css"
  have l: "0 + length (take k ?L) = k" using assms(1) by simp
  have "?L = take k ?L @ (?L ! k # drop (Suc k) ?L)"
    using assms(1) by (simp add: id_take_nth_drop [symmetric])
  then have "dts_final css = dts_loop 0 (take k ?L @ (?L ! k # drop (Suc k) ?L)) dts_init"
    by (simp add: dts_final_def)
  also have "\<dots> = dts_loop k (?L ! k # drop (Suc k) ?L) (dts_loop 0 (take k ?L) dts_init)"
    using dts_loop_append [OF assms(2), of "?L ! k # drop (Suc k) ?L"] by (simp only: l)
  also have "\<dots> = fst (dts_step (int k + 1) (?L ! k) (dts_loop 0 (take k ?L) dts_init))"
    using assms(3) by (rule dts_loop_Cons_break)
  finally show ?thesis using assms(3) by (simp add: dts_step_break_end)
qed









lemma dts_step_dark_start:
  assumes "currentBlockType st = Some ''dark-theme'' \<longrightarrow> 1 \<le> darkThemeStartLine st" "1 \<le> n"
  shows "(currentBlockType (fst (dts_step n line st)) = Some ''dark-theme''
          \<longrightarrow> 1 \<le> darkThemeStartLine (fst (dts_step n line st)))
         \<and> (snd (dts_step n line st) \<longrightarrow> 1 \<le> darkThemeStartLine (fst (dts_step n line st)))"
  using assms by (simp add: dts_step_cases)

lemma dts_loop_dark_start:
  assumes "currentBlockType st = Some ''dark-theme'' \<longrightarrow> 1 \<le> darkThemeStartLine st"
    and "darkThemeEndLine st = - 1" "darkThemeEndLine (dts_loop i ls st) \<noteq> - 1"
  shows "1 \<le> darkThemeStartLine (dts_loop i ls st)"
  using assms
proof (induction ls arbitrary: i st)
  case Nil
  then show ?case by simp
next
  case (Cons l ls)
  note d = dts_step_dark_start [OF Cons.prems(1), of "int i + 1" l]
  show ?case
  proof (cases "snd (dts_step (int i + 1) l st)")
    case True
    then show ?thesis using d by (simp add: dts_loop_Cons_break)
  next
    case False
    have e: "darkThemeEndLine (fst (dts_step (int i + 1) l st)) = - 1"
      using False Cons.prems(2) by (simp add: dts_step_continue_end)
    from Cons.IH [OF _ e, of "Suc i"] d False Cons.prems(3) show ?thesis
      by (simp add: dts_loop_Cons_continue)
  qed
qed


section \<open>The loop of the section locator against the text\<close>







lemma last_anchor_None: "last_anchor L j = None \<Longrightarrow> m < j \<Longrightarrow> \<not> anchor_at L m"
  by (induction j) (auto split: if_splits simp: less_Suc_eq)





















section \<open>The loop of the block scanner\<close>













section \<open>Claims about the end-to-end document\<close>

text \<open>
  Claim C1, as stated, fails on the code. In the document of the end-to-end scenario the
  closing brace of the \<open>.dark-theme\<close> block is line 10; line 9 is the declaration
  \<open>--bg: #000;\<close>. The section returned ends at line 10, and replacing lines 1 to 9
  leaves the closing brace behind, between \<open>@theme{}\<close> and the last rule.
\<close>

theorem e2e_section_end_counterexample:
  "map_option endLine (extractDesignTokenSection e2e_document) \<noteq> Some 9
   \<and> map_option endLine (extractDesignTokenSection e2e_document) = Some 10
   \<and> replaceLines e2e_document 1 9 ''@theme{}''
       \<noteq> Inr (join_nl [''@theme{}'', ''.more-unrelated { color: green; }''])
   \<and> split_nl e2e_document ! 8 = ''  --bg: #000;''
   \<and> split_nl e2e_document ! 9 = ''}''
   \<and> replaceLines e2e_document 1 9 ''@theme{}''
       = Inr (join_nl [''@theme{}'', ''}'', ''.more-unrelated { color: green; }''])"
  by code_simp

text \<open>
  Claim C1, amended: for the document of the end-to-end scenario,
  \<open>extractDesignTokenSection\<close> returns the section from line 1 to line 10, line 10
  being the closing brace of the \<open>.dark-theme\<close> block, with the \<open>.unrelated\<close> rule
  in its content; and \<open>replaceLines\<close> on lines 1 to 10 with \<open>@theme{}\<close> gives the
  two lines \<open>@theme{}\<close> and \<open>.more-unrelated { color: green; }\<close>. When the document
  text ends with a newline the section is the same and the result has three lines, the
  last one empty.
\<close>

theorem e2e_section_and_splice:
  "extractDesignTokenSection e2e_document
     = Some \<lparr>startLine = 1, endLine = 10, content = join_nl (take 10 e2e_lines),
             blocks = \<lparr>theme = 1, root = 5, darkTheme = 8, darkThemeEnd = 10\<rparr>\<rparr>
   \<and> split_nl e2e_document ! 9 = ''}''
   \<and> includes_str (join_nl (take 10 e2e_lines)) ''.unrelated { color: blue; }''
   \<and> replaceLines e2e_document 1 10 ''@theme{}''
       = Inr (join_nl [''@theme{}'', ''.more-unrelated { color: green; }''])
   \<and> length (split_nl (join_nl [''@theme{}'', ''.more-unrelated { color: green; }''])) = 2
   \<and> extractDesignTokenSection (e2e_document @ [CHR 0x0A])
     = Some \<lparr>startLine = 1, endLine = 10, content = join_nl (take 10 e2e_lines),
             blocks = \<lparr>theme = 1, root = 5, darkTheme = 8, darkThemeEnd = 10\<rparr>\<rparr>
   \<and> replaceLines (e2e_document @ [CHR 0x0A]) 1 10 ''@theme{}''
       = Inr (join_nl [''@theme{}'', ''.more-unrelated { color: green; }'', ''''])"
  by code_simp

section \<open>Claims about replaceLines\<close>

text \<open>
  Claim C6: \<open>replaceLines\<close> fails exactly when \<open>s < 1\<close>, or \<open>e\<close> exceeds the line
  count of the document, or \<open>s > e\<close>; the error then carries the message built from
  \<open>s\<close>, \<open>e\<close> and the line count, and no bound is clamped: every other range gives a
  document. With at least 5 lines, the ranges 5 to 3 and 0 to 1 fail.
\<close>

theorem replaceLines_invalid_range_iff: 
  "(isl (replaceLines D s e X) \<longleftrightarrow> s < 1 \<or> e > int (length (split_nl D)) \<or> s > e)
   \<and> (\<forall>err. replaceLines D s e X = Inl err \<longrightarrow>
         err = Error (''Invalid line range: '' @ show_int s @ ''-'' @ show_int e
                      @ '' (total lines: '' @ show_nat (length (split_nl D)) @ '')''))
   \<and> (5 \<le> length (split_nl D) \<longrightarrow>
         isl (replaceLines D 5 3 ''x'') \<and> isl (replaceLines D 0 1 ''x''))"
  by (simp add: replaceLines_def Let_def)

text \<open>
  Claim C6, at the end-to-end document, which has 11 lines.
\<close>

theorem replaceLines_invalid_range_iff_witness:
  "isl (replaceLines e2e_document 5 3 ''x'')
   \<and> isl (replaceLines e2e_document 0 1 ''x'')
   \<and> isl (replaceLines e2e_document 11 12 ''x'')
   \<and> \<not> isl (replaceLines e2e_document 3 5 ''x'')
   \<and> replaceLines e2e_document 5 3 ''x''
       = Inl (Error ''Invalid line range: 5-3 (total lines: 11)'')"
proof -
  have n: "length (split_nl e2e_document) = 11" by code_simp
  have m: "show_int 5 = ''5''" "show_int 3 = ''3''" "show_nat 11 = ''11''" by code_simp+
  show ?thesis
    using replaceLines_invalid_range_iff [of e2e_document 5 3 "''x''"] replaceLines_invalid_range_iff [of e2e_document 0 1 "''x''"]
      replaceLines_invalid_range_iff [of e2e_document 11 12 "''x''"] replaceLines_invalid_range_iff [of e2e_document 3 5 "''x''"]
    by (cases "replaceLines e2e_document 5 3 ''x''") (simp_all add: n m)
qed

text \<open>
  Claim C7: for a valid range \<open>1 \<le> s \<le> e \<le> lineCount D\<close>, the result of
  \<open>replaceLines\<close> starts with lines \<open>1..s-1\<close> of \<open>D\<close>, ends with the lines of \<open>D\<close>
  after \<open>e\<close>, both unchanged and in order, and its line count is that of \<open>D\<close> minus
  the \<open>e - s + 1\<close> replaced lines plus the lines of the replacement.
\<close>

theorem replaceLines_frame:
  assumes "1 \<le> s" "s \<le> e" "e \<le> int (length (split_nl D))"
  shows "\<exists>out. replaceLines D s e X = Inr out
           \<and> take (nat (s - 1)) (split_nl out) = take (nat (s - 1)) (split_nl D)
           \<and> drop (length (split_nl out) - (length (split_nl D) - nat e)) (split_nl out)
               = drop (nat e) (split_nl D)
           \<and> int (length (split_nl out))
               = int (length (split_nl D)) - (e - s + 1) + int (length (split_nl X))"
proof -
  obtain out where out: "replaceLines D s e X = Inr out"
    using replaceLines_valid [OF assms] by blast
  note ls = replaceLines_lines [OF assms out]
  have 1: "take (nat (s - 1)) (split_nl out) = take (nat (s - 1)) (split_nl D)"
    using assms by (simp add: ls)
  have len: "int (length (split_nl out))
               = int (length (split_nl D)) - (e - s + 1) + int (length (split_nl X))"
    using assms by (simp add: ls min_def)
  have "length (split_nl out) - (length (split_nl D) - nat e)
          = length (take (nat (s - 1)) (split_nl D) @ split_nl X)"
    using assms by (simp add: ls min_def)
  then have 2: "drop (length (split_nl out) - (length (split_nl D) - nat e)) (split_nl out)
               = drop (nat e) (split_nl D)"
    unfolding ls by (metis append.assoc append_eq_conv_conj)
  from out 1 2 len show ?thesis by blast
qed

text \<open>
  Claim C7, at lines 4 to 10 of the end-to-end document.
\<close>

theorem replaceLines_frame_witness:
  "(1::int) \<le> 4 \<and> (4::int) \<le> 10 \<and> 10 \<le> int (length (split_nl e2e_document))
   \<and> (\<exists>out. replaceLines e2e_document 4 10 ''@theme{}'' = Inr out
           \<and> take (nat (4 - 1)) (split_nl out) = take (nat (4 - 1)) (split_nl e2e_document)
           \<and> drop (length (split_nl out) - (length (split_nl e2e_document) - nat 10)) (split_nl out)
               = drop (nat 10) (split_nl e2e_document)
           \<and> int (length (split_nl out))
               = int (length (split_nl e2e_document)) - (10 - 4 + 1) + int (length (split_nl ''@theme{}'')))"
proof -
  have n: "10 \<le> int (length (split_nl e2e_document))" by code_simp
  from replaceLines_frame [of 4 10 e2e_document "''@theme{}''"] n show ?thesis by simp
qed

text \<open>
  Claim C8: for a valid range, replacing lines \<open>s..e\<close> of \<open>D\<close> by their own
  newline-joined text gives \<open>D\<close> back.
\<close>

theorem replaceLines_round_trip:
  assumes "1 \<le> s" "s \<le> e" "e \<le> int (length (split_nl D))"
  shows "replaceLines D s e (join_nl (js_slice (split_nl D) (s - 1) e)) = Inr D"
proof -
  let ?L = "split_nl D"
  let ?mid = "drop (nat (s - 1)) (take (nat e) ?L)"
  have sl: "js_slice ?L (s - 1) e = ?mid"
    using assms by (simp add: js_slice_range)
  have "?mid \<noteq> []" using assms by simp
  moreover have "\<forall>l\<in>set ?mid. CHR 0x0A \<notin> set l"
    by (auto dest: split_nl_lines_no_newline in_set_takeD in_set_dropD)
  ultimately have sp: "split_nl (join_nl ?mid) = ?mid"
    by (rule split_nl_join_nl)
  have "take (nat (s - 1)) ?L = take (nat (s - 1)) (take (nat e) ?L)"
    using assms by (simp add: min_def)
  then have "take (nat (s - 1)) ?L @ ?mid @ drop (nat e) ?L = ?L"
    by (metis append.assoc append_take_drop_id)
  then show ?thesis
    using replaceLines_valid [OF assms, of "join_nl ?mid"]
    by (simp add: sl sp join_nl_split_nl)
qed

text \<open>
  Claim C8, at lines 5 to 7 of the end-to-end document.
\<close>

theorem replaceLines_round_trip_witness:
  "(1::int) \<le> 5 \<and> (5::int) \<le> 7 \<and> 7 \<le> int (length (split_nl e2e_document))
   \<and> replaceLines e2e_document 5 7 (join_nl (js_slice (split_nl e2e_document) (5 - 1) 7))
       = Inr e2e_document"
proof -
  have n: "7 \<le> int (length (split_nl e2e_document))" by code_simp
  from replaceLines_round_trip [of 5 7 e2e_document] n show ?thesis by simp
qed

text \<open>
  Claim C10: for a valid range, the empty string as replacement does not delete the
  range: it stands for one empty line, which is line \<open>s\<close> of the result, between the
  unchanged lines before \<open>s\<close> and after \<open>e\<close>; the result has the line count of \<open>D\<close>
  minus \<open>e - s + 1\<close> plus one.
\<close>

theorem replaceLines_empty_replacement:
  assumes "1 \<le> s" "s \<le> e" "e \<le> int (length (split_nl D))"
  shows "\<exists>out. replaceLines D s e [] = Inr out
           \<and> int (length (split_nl out)) = int (length (split_nl D)) - (e - s + 1) + 1
           \<and> split_nl out ! nat (s - 1) = []
           \<and> take (nat (s - 1)) (split_nl out) = take (nat (s - 1)) (split_nl D)
           \<and> drop (nat s) (split_nl out) = drop (nat e) (split_nl D)"
proof -
  obtain out where out: "replaceLines D s e [] = Inr out"
    using replaceLines_valid [OF assms] by blast
  have ls: "split_nl out = take (nat (s - 1)) (split_nl D) @ [[]] @ drop (nat e) (split_nl D)"
    using replaceLines_lines [OF assms out] by simp
  have l: "length (take (nat (s - 1)) (split_nl D)) = nat (s - 1)"
    using assms by simp
  have 1: "int (length (split_nl out)) = int (length (split_nl D)) - (e - s + 1) + 1"
    using assms by (simp add: ls min_def)
  have 2: "split_nl out ! nat (s - 1) = []"
    unfolding ls using l by (metis append_Cons nth_append_length)
  have 3: "take (nat (s - 1)) (split_nl out) = take (nat (s - 1)) (split_nl D)"
    unfolding ls using l by simp
  have "nat s = length (take (nat (s - 1)) (split_nl D) @ [[]])"
    using assms l by simp
  then have 4: "drop (nat s) (split_nl out) = drop (nat e) (split_nl D)"
    unfolding ls by (metis append.assoc append_eq_conv_conj)
  from out 1 2 3 4 show ?thesis by blast
qed

text \<open>
  Claim C10, at lines 5 to 7 of the end-to-end document.
\<close>

theorem replaceLines_empty_replacement_witness:
  "(1::int) \<le> 5 \<and> (5::int) \<le> 7 \<and> 7 \<le> int (length (split_nl e2e_document))
   \<and> (\<exists>out. replaceLines e2e_document 5 7 [] = Inr out
           \<and> int (length (split_nl out)) = int (length (split_nl e2e_document)) - (7 - 5 + 1) + 1
           \<and> split_nl out ! nat (5 - 1) = []
           \<and> take (nat (5 - 1)) (split_nl out) = take (nat (5 - 1)) (split_nl e2e_document)
           \<and> drop (nat 5) (split_nl out) = drop (nat 7) (split_nl e2e_document))"
proof -
  have n: "7 \<le> int (length (split_nl e2e_document))" by code_simp
  from replaceLines_empty_replacement [of 5 7 e2e_document] n show ?thesis by simp
qed

section \<open>Claims about extractThemeBlocks\<close>




section \<open>Claims about extractDesignTokenSection\<close>










text \<open>
  Claim C9: every section returned has \<open>1 \<le> startLine < endLine \<le> lineCount\<close>, so
  \<open>replaceLines\<close> on the same document with these bounds never fails.
\<close>

theorem section_bounds_valid_range:
  assumes "extractDesignTokenSection css = Some r"
  shows "1 \<le> startLine r \<and> startLine r < endLine r
         \<and> endLine r \<le> int (length (split_nl css))
         \<and> (\<forall>X. \<exists>out. replaceLines css (startLine r) (endLine r) X = Inr out)"
proof -
  note b = extract_bounds [OF assms]
  then have "\<exists>out. replaceLines css (startLine r) (endLine r) X = Inr out" for X
    using replaceLines_valid [of "startLine r" "endLine r" css X] by simp
  with b show ?thesis by blast
qed

text \<open>
  Claim C9, at the end-to-end document.
\<close>

theorem section_bounds_valid_range_witness:
  "extractDesignTokenSection e2e_document
     = Some \<lparr>startLine = 1, endLine = 10, content = join_nl (take 10 e2e_lines),
             blocks = \<lparr>theme = 1, root = 5, darkTheme = 8, darkThemeEnd = 10\<rparr>\<rparr>
   \<and> (10::int) \<le> int (length (split_nl e2e_document))
   \<and> (\<exists>out. replaceLines e2e_document 1 10 ''@theme{}'' = Inr out)"
proof -
  have h: "extractDesignTokenSection e2e_document
     = Some \<lparr>startLine = 1, endLine = 10, content = join_nl (take 10 e2e_lines),
             blocks = \<lparr>theme = 1, root = 5, darkTheme = 8, darkThemeEnd = 10\<rparr>\<rparr>"
    by code_simp
  from section_bounds_valid_range [OF h] h show ?thesis by simp
qed

end
